theory Spec2Isabelle
  imports Main
begin

section \<open>JavaScript values\<close>

text \<open>
  The driver of \<^verbatim>\<open>apps/cycle/router5/driver.js\<close> receives arbitrary JavaScript values:
  sink requests, router states, error payloads. They are modelled by one datatype. An
  object is an association list of its properties; \<open>Undefined\<close> and \<open>Null\<close> are the two
  JavaScript values of these names.
\<close>

datatype jsval =
    Undefined
  | Null
  | Bool bool
  | Num int
  | Str string
  | Arr "jsval list"
  | Obj "(string \<times> jsval) list"

text \<open>\<^verbatim>\<open>xs[i]\<close>: reading an array beyond its length gives \<^verbatim>\<open>undefined\<close>.\<close>

definition js_index :: "jsval list \<Rightarrow> nat \<Rightarrow> jsval" where
  "js_index xs i = (if i < length xs then xs ! i else Undefined)"

section \<open>The router, as the driver sees it\<close>

text \<open>
  The Router5 instance is an external, mutable object. The model keeps what the driver
  reads and what it does to the router: the \<^verbatim>\<open>started\<close> flag, the answer of
  \<^verbatim>\<open>getState()\<close>, the names of the plugins registered with \<^verbatim>\<open>usePlugin\<close> and the
  method invocations, both in the order they happened. Mutation is explicit state passing.
\<close>

record router =
  started :: bool
  state :: jsval
  plugins :: "string list"
  invoked :: "(string \<times> jsval list) list"

definition getState :: "router \<Rightarrow> jsval" where
  "getState r = state r"

definition usePlugin :: "string \<Rightarrow> router \<Rightarrow> router" where
  "usePlugin name r = r\<lparr>plugins := plugins r @ [name]\<rparr>"

text \<open>
  \<^verbatim>\<open>router[method].apply(router, args)\<close>. The invocation is recorded; Router5's
  \<^verbatim>\<open>start\<close> sets the \<^verbatim>\<open>started\<close> flag and \<^verbatim>\<open>stop\<close> clears it. Whatever else the
  router does in a method (transitions, calls of the plugins' hooks) reaches the driver
  as hook calls, which are an input of the streams below.
\<close>

definition apply_method :: "string \<Rightarrow> jsval list \<Rightarrow> router \<Rightarrow> router" where
  "apply_method method args r =
     r\<lparr>started := (if method = ''start'' then True
                   else if method = ''stop'' then False
                   else started r),
       invoked := invoked r @ [(method, args)]\<rparr>"

section \<open>The command sink\<close>

definition sinkMethods :: "string list" where
  "sinkMethods = [''cancel'', ''start'', ''stop'', ''navigate'', ''canActivate'', ''canDeactivate'']"

text \<open>\<^verbatim>\<open>sinkMethods.join(',')\<close>\<close>

fun join :: "string \<Rightarrow> string list \<Rightarrow> string" where
  "join sep [] = []"
| "join sep [x] = x"
| "join sep (x # y # ys) = x @ sep @ join sep (y # ys)"

datatype jserror = Error string

text \<open>The console: the lines of \<^verbatim>\<open>console.log\<close> and those of \<^verbatim>\<open>console.error\<close>.\<close>

record console =
  logged :: "jsval list"
  errors :: "jserror list"

text \<open>
  \<^verbatim>\<open>Array.isArray(req) || typeof req === 'string' ? [].concat(req) : []\<close>:
  \<^verbatim>\<open>concat\<close> spreads an array argument (one level) and appends any other value.
\<close>

fun normReq_of :: "jsval \<Rightarrow> jsval list" where
  "normReq_of (Arr xs) = xs"
| "normReq_of (Str s) = [Str s]"
| "normReq_of _ = []"

text \<open>
  \<^verbatim>\<open>sinkMethods.indexOf(v) === -1\<close>: \<^verbatim>\<open>indexOf\<close> compares with \<^verbatim>\<open>===\<close>, and the
  members of \<^verbatim>\<open>sinkMethods\<close> are strings, so only a string can be found.
\<close>

fun not_in_sinkMethods :: "jsval \<Rightarrow> bool" where
  "not_in_sinkMethods (Str s) = (s \<notin> set sinkMethods)"
| "not_in_sinkMethods _ = True"

text \<open>The error thrown at lines 19 to 22.\<close>

definition sinkError :: jserror where
  "sinkError =
     Error (''A Router5 sink argument should be a string (method name) or''
       @ '' an object which first element is a valid metod name, followed by its arguments.''
       @ '' Available sink methods are: '' @ join '','' sinkMethods @ ''.'')"

text \<open>
  \<^verbatim>\<open>normaliseRequest\<close> (lines 12 to 26): it logs the request, then returns the
  normalised array or throws. The throw is the \<open>Inl\<close> result.
\<close>

definition normaliseRequest :: "jsval \<Rightarrow> console \<Rightarrow> (jserror + jsval list) \<times> console" where
  "normaliseRequest req c =
     (let c1 = c\<lparr>logged := logged c @ [req]\<rparr>;
          normReq = normReq_of req
      in if not_in_sinkMethods (js_index normReq 0)
         then (Inl sinkError, c1)
         else (Inr normReq, c1))"

text \<open>
  The subscriber's \<^verbatim>\<open>onNext\<close> (line 114):
  \<^verbatim>\<open>([ method, ...args ]) => router[method].apply(router, args)\<close>. It runs only on
  what \<^verbatim>\<open>normaliseRequest\<close> returned, whose head is a string of \<^verbatim>\<open>sinkMethods\<close>
  (lemma \<open>normaliseRequest_Inr\<close>); on any other array the property lookup would fail,
  and the model leaves the router as it is.
\<close>

fun onNext :: "jsval list \<Rightarrow> router \<Rightarrow> router" where
  "onNext (Str method # args) r = apply_method method args r"
| "onNext _ r = r"

text \<open>
  The state of the sink subscription: the router, the console, and whether the
  subscription has stopped. In Rx an error notification ends a sequence: when the
  selector of \<^verbatim>\<open>map\<close> throws, the operator sends \<^verbatim>\<open>onError\<close> to the subscriber, the
  subscription is disposed of, and no later element of the source reaches the selector
  or the subscriber.
\<close>

record sink =
  sink_router :: router
  sink_console :: console
  stopped :: bool

text \<open>
  One request arriving on \<^verbatim>\<open>request$\<close> (lines 111 to 116):
  \<^verbatim>\<open>request$.map(normaliseRequest).subscribe(onNext, err => console.error(err))\<close>.
\<close>

definition sink_step :: "sink \<Rightarrow> jsval \<Rightarrow> sink" where
  "sink_step s req =
     (if stopped s then s
      else (case normaliseRequest req (sink_console s) of
              (Inl err, c1) \<Rightarrow> s\<lparr>sink_console := c1\<lparr>errors := errors c1 @ [err]\<rparr>, stopped := True\<rparr>
            | (Inr normReq, c1) \<Rightarrow> s\<lparr>sink_router := onNext normReq (sink_router s), sink_console := c1\<rparr>))"

text \<open>The whole request stream, in arrival order.\<close>

definition driver :: "sink \<Rightarrow> jsval list \<Rightarrow> sink" where
  "driver s reqs = foldl sink_step s reqs"

section \<open>The router's lifecycle events\<close>

text \<open>
  The plugin of lines 44 to 52 has six hooks. The router calls a hook with a list of
  arguments; a parameter beyond the arguments supplied is \<^verbatim>\<open>undefined\<close>.
\<close>

datatype hook =
    OnStart
  | OnStop
  | OnTransitionSuccess
  | OnTransitionError
  | OnTransitionStart
  | OnTransitionCancel

type_synonym hookCall = "hook \<times> jsval list"

text \<open>
  The event objects of lines 38, 39 and 41. A property that an object does not have
  reads as \<^verbatim>\<open>undefined\<close>, and is \<open>Undefined\<close> in the record. The projection of
  line 63 builds an object of the two properties \<^verbatim>\<open>toState\<close> and \<^verbatim>\<open>fromState\<close>,
  the record \<open>slate\<close>; an event has these two, its \<^verbatim>\<open>type\<close> and \<^verbatim>\<open>error\<close>.
\<close>

record slate =
  toState :: jsval
  fromState :: jsval

record routerEvt = slate +
  type :: string
  error :: jsval

text \<open>
  \<^verbatim>\<open>pushState(type, isError)\<close> (lines 37 to 40) and \<^verbatim>\<open>push(type)\<close> (line 41):
  the event that the hook hands to \<^verbatim>\<open>observer.onNext\<close> when the router calls it
  with \<open>args\<close>.
\<close>

definition pushState :: "string \<Rightarrow> bool \<Rightarrow> jsval list \<Rightarrow> routerEvt" where
  "pushState ty isError args =
     \<lparr>toState = js_index args 0, fromState = js_index args 1,
      type = ty, error = (if isError then js_index (drop 2 args) 0 else Undefined)\<rparr>"

definition push :: "string \<Rightarrow> jsval list \<Rightarrow> routerEvt" where
  "push ty args = \<lparr>toState = Undefined, fromState = Undefined, type = ty, error = Undefined\<rparr>"

text \<open>\<^verbatim>\<open>cyclePlugin\<close> (lines 44 to 52): the handler of each hook.\<close>

fun cyclePlugin :: "hookCall \<Rightarrow> routerEvt" where
  "cyclePlugin (OnStart, args) = push ''start'' args"
| "cyclePlugin (OnStop, args) = push ''stop'' args"
| "cyclePlugin (OnTransitionSuccess, args) = pushState ''transitionSuccess'' False args"
| "cyclePlugin (OnTransitionError, args) = pushState ''transitionError'' True args"
| "cyclePlugin (OnTransitionStart, args) = pushState ''transitionStart'' False args"
| "cyclePlugin (OnTransitionCancel, args) = pushState ''transitionCancel'' False args"

section \<open>Observables\<close>

text \<open>
  An observable made with \<^verbatim>\<open>Rx.Observable.create\<close> is cold: its body runs once for
  every subscription. For the streams of the driver a subscription is described by two
  things: what subscribing does to the router, and the values the subscriber receives,
  as a function of the hook calls that the router makes, from then on, on the plugin
  which this subscription registered.
\<close>

record 'a observable =
  subscribe_effect :: "router \<Rightarrow> router"
  emits :: "hookCall list \<Rightarrow> 'a list"

text \<open>
  The operators \<^verbatim>\<open>filter\<close>, \<^verbatim>\<open>map\<close> and \<^verbatim>\<open>startWith\<close> of Rx. Each subscribes to
  its source once when it is subscribed to, and keeps no state between subscriptions.
\<close>

definition rx_filter :: "('a \<Rightarrow> bool) \<Rightarrow> 'a observable \<Rightarrow> 'a observable" where
  "rx_filter p src =
     \<lparr>subscribe_effect = subscribe_effect src, emits = (\<lambda>calls. filter p (emits src calls))\<rparr>"

definition rx_map :: "('a \<Rightarrow> 'b) \<Rightarrow> 'a observable \<Rightarrow> 'b observable" where
  "rx_map f src =
     \<lparr>subscribe_effect = subscribe_effect src, emits = (\<lambda>calls. map f (emits src calls))\<rparr>"

definition rx_startWith :: "'a \<Rightarrow> 'a observable \<Rightarrow> 'a observable" where
  "rx_startWith v src =
     \<lparr>subscribe_effect = subscribe_effect src, emits = (\<lambda>calls. v # emits src calls)\<rparr>"

text \<open>
  A subscription made when the router is \<open>r\<close>, followed by the hook calls \<open>calls\<close>:
  the router after the subscription's effects, and the values received.
\<close>

definition subscribe :: "'a observable \<Rightarrow> router \<Rightarrow> hookCall list \<Rightarrow> router \<times> 'a list" where
  "subscribe obs r calls = (subscribe_effect obs r, emits obs calls)"

text \<open>
  A subscriber that joins after the router has made the first \<open>k\<close> hook calls of
  \<open>calls\<close>: its plugin is registered only then, and is called for the rest.
\<close>

definition received_from :: "nat \<Rightarrow> 'a observable \<Rightarrow> hookCall list \<Rightarrow> 'a list" where
  "received_from k obs calls = emits obs (drop k calls)"

section \<open>The driver's streams\<close>

text \<open>
  \<^verbatim>\<open>makeRouterDriver(router, autostart = true)\<close>: the default applies when the
  argument is left out.
\<close>

definition autostart_arg :: "bool option \<Rightarrow> bool" where
  "autostart_arg a = (case a of None \<Rightarrow> True | Some b \<Rightarrow> b)"

text \<open>
  \<^verbatim>\<open>transition$\<close> (lines 36 to 59). The names of the source that end in \<^verbatim>\<open>$\<close> end in
  \<open>_S\<close> here.
\<close>

definition transition_S :: "bool \<Rightarrow> routerEvt observable" where
  "transition_S autostart =
     \<lparr>subscribe_effect =
        (\<lambda>r. let r1 = usePlugin ''CYCLE_DRIVER'' r
             in if \<not> started r1 \<and> autostart then apply_method ''start'' [] r1 else r1),
      emits = map cyclePlugin\<rparr>"

text \<open>Lines 61 to 63.\<close>

definition filter_S :: "bool \<Rightarrow> string \<Rightarrow> routerEvt observable" where
  "filter_S autostart ty = rx_filter (\<lambda>e. type e = ty) (transition_S autostart)"

definition slice :: "bool \<Rightarrow> string \<Rightarrow> string observable" where
  "slice autostart ty = rx_map type (filter_S autostart ty)"

definition sliceSlate :: "bool \<Rightarrow> string \<Rightarrow> slate observable" where
  "sliceSlate autostart ty =
     rx_map (\<lambda>e. \<lparr>toState = toState e, fromState = fromState e\<rparr>) (filter_S autostart ty)"

text \<open>\<^verbatim>\<open>observables\<close> (lines 66 to 73).\<close>

definition start_S :: "bool \<Rightarrow> string observable" where
  "start_S autostart = slice autostart ''start''"

definition stop_S :: "bool \<Rightarrow> string observable" where
  "stop_S autostart = slice autostart ''stop''"

definition transitionStart_S :: "bool \<Rightarrow> slate observable" where
  "transitionStart_S autostart = sliceSlate autostart ''transitionStart''"

definition transitionCancel_S :: "bool \<Rightarrow> slate observable" where
  "transitionCancel_S autostart = sliceSlate autostart ''transitionCancel''"

definition transitionSuccess_S :: "bool \<Rightarrow> slate observable" where
  "transitionSuccess_S autostart = sliceSlate autostart ''transitionSuccess''"

definition transitionError_S :: "bool \<Rightarrow> slate observable" where
  "transitionError_S autostart = sliceSlate autostart ''transitionError''"

text \<open>\<^verbatim>\<open>transitionRoute$\<close> (lines 76 to 78) and \<^verbatim>\<open>error$\<close> (lines 81 to 83).\<close>

definition transitionRoute_S :: "bool \<Rightarrow> jsval observable" where
  "transitionRoute_S autostart =
     rx_startWith Null
       (rx_map (\<lambda>e. if type e = ''transitionStart'' then toState e else Null)
          (transition_S autostart))"

definition error_S :: "bool \<Rightarrow> jsval observable" where
  "error_S autostart =
     rx_startWith Null
       (rx_map (\<lambda>e. if type e = ''transitionError'' then error e else Null)
          (transition_S autostart))"

text \<open>
  \<^verbatim>\<open>routeState$\<close> (lines 85 to 90). \<^verbatim>\<open>transitionPath\<close> comes from the package
  \<^verbatim>\<open>router5.transition-path\<close> and is a parameter: \<open>tp toState fromState\<close> is the
  \<^verbatim>\<open>intersection\<close> of its result, a node name or \<^verbatim>\<open>null\<close> (\<open>None\<close>).
\<close>

record routeState =
  intersection :: "string option"
  route :: jsval

definition routeState_S ::
  "(jsval \<Rightarrow> jsval \<Rightarrow> string option) \<Rightarrow> bool \<Rightarrow> routeState observable" where
  "routeState_S tp autostart =
     rx_map (\<lambda>s. \<lparr>intersection = tp (toState s) (fromState s), route = toState s\<rparr>)
       (rx_filter (\<lambda>s. toState s \<noteq> Null) (transitionSuccess_S autostart))"

text \<open>
  \<^verbatim>\<open>route$\<close> (lines 93 and 94). The argument of \<^verbatim>\<open>startWith\<close> is evaluated where
  the expression stands, in the body of \<^verbatim>\<open>makeRouterDriver\<close>: \<open>r0\<close> is the router
  as it is when \<^verbatim>\<open>makeRouterDriver\<close> is called.
\<close>

definition route_S ::
  "(jsval \<Rightarrow> jsval \<Rightarrow> string option) \<Rightarrow> router \<Rightarrow> bool \<Rightarrow> jsval observable" where
  "route_S tp r0 autostart =
     rx_startWith (getState r0) (rx_map route (routeState_S tp autostart))"

text \<open>
  \<^verbatim>\<open>routeNode$\<close> (lines 97 to 102), a function of \<^verbatim>\<open>node\<close>: here \<^verbatim>\<open>getState\<close> is
  called when \<^verbatim>\<open>routeNode$(node)\<close> is, on the router \<open>r\<close> of that moment. The
  intersection is a string or \<^verbatim>\<open>null\<close>, and so is \<open>node\<close>; on these \<^verbatim>\<open>===\<close> is equality.
\<close>

definition routeNode_S ::
  "(jsval \<Rightarrow> jsval \<Rightarrow> string option) \<Rightarrow> bool \<Rightarrow> router \<Rightarrow> string option \<Rightarrow> jsval observable" where
  "routeNode_S tp autostart r node =
     rx_filter (\<lambda>rt. rt \<noteq> Null)
       (rx_startWith (getState r)
          (rx_map route
             (rx_filter (\<lambda>s. intersection s = node) (routeState_S tp autostart))))"

section \<open>The words of the specification, and the routers of the examples\<close>

text \<open>
  The shapes of a command as the specification describes them (section 4.4), to compare
  the code with: a bare string is a command without arguments, a non-empty sequence is
  a name followed by its arguments, and nothing else is a command. A command is valid
  when its name is a string of the vocabulary; \<open>spec_calls\<close> is the router call that a
  valid command stands for.
\<close>

fun spec_command :: "jsval \<Rightarrow> (jsval \<times> jsval list) option" where
  "spec_command (Str s) = Some (Str s, [])"
| "spec_command (Arr (x # xs)) = Some (x, xs)"
| "spec_command _ = None"

definition spec_valid :: "jsval \<Rightarrow> bool" where
  "spec_valid req =
     (case spec_command req of
        Some (Str m, args) \<Rightarrow> m \<in> set sinkMethods
      | _ \<Rightarrow> False)"

definition spec_calls :: "jsval \<Rightarrow> (string \<times> jsval list) list" where
  "spec_calls req =
     (case spec_command req of
        Some (Str m, args) \<Rightarrow> if m \<in> set sinkMethods then [(m, args)] else []
      | _ \<Rightarrow> [])"

text \<open>
  A router on which nothing has happened yet, and a sink subscription that has just
  been made on it.
\<close>

definition router0 :: router where
  "router0 = \<lparr>started = False, state = Null, plugins = [], invoked = []\<rparr>"

definition sink0 :: sink where
  "sink0 = \<lparr>sink_router = router0, sink_console = \<lparr>logged = [], errors = []\<rparr>, stopped = False\<rparr>"

text \<open>
  The routers and states of the examples: a state named \<^verbatim>\<open>home\<close>, and the router
  after it has started and reached it.
\<close>

definition home :: jsval where
  "home = Obj [(''name'', Str ''home'')]"

definition router1 :: router where
  "router1 = router0\<lparr>started := True, state := home\<rparr>"

text \<open>
  In the examples \<^verbatim>\<open>transitionPath\<close> is given by its answer: \<open>tp_const i\<close> finds the
  intersection \<open>i\<close>.
\<close>

definition tp_const :: "string option \<Rightarrow> jsval \<Rightarrow> jsval \<Rightarrow> string option" where
  "tp_const i to_state from_state = i"

section \<open>The command sink: normalisation, validation, dispatch\<close>

lemma not_in_sinkMethods_iff:
  "\<not> not_in_sinkMethods v \<longleftrightarrow> (\<exists>m. v = Str m \<and> m \<in> set sinkMethods)"
  by (cases v) auto

lemma normaliseRequest_Inr:
  assumes "fst (normaliseRequest req c) = Inr nr"
  shows "\<exists>m args. nr = Str m # args \<and> m \<in> set sinkMethods"
proof -
  from assms have nr: "nr = normReq_of req" and ok: "\<not> not_in_sinkMethods (js_index nr 0)"
    by (auto simp: normaliseRequest_def Let_def split: if_splits)
  from ok obtain m where m: "js_index nr 0 = Str m" "m \<in> set sinkMethods"
    unfolding not_in_sinkMethods_iff by blast
  then show ?thesis
    by (cases nr) (auto simp: js_index_def)
qed

lemma normaliseRequest_valid:
  "spec_command req = Some (Str m, args) \<Longrightarrow> m \<in> set sinkMethods \<Longrightarrow>
   normaliseRequest req c = (Inr (Str m # args), c\<lparr>logged := logged c @ [req]\<rparr>)"
  by (cases req rule: spec_command.cases) (auto simp: normaliseRequest_def Let_def js_index_def)

lemma normaliseRequest_no_command:
  "spec_command req = None \<Longrightarrow>
   normaliseRequest req c = (Inl sinkError, c\<lparr>logged := logged c @ [req]\<rparr>)"
  by (cases req rule: spec_command.cases) (auto simp: normaliseRequest_def Let_def js_index_def)

lemma normaliseRequest_unknown_name:
  "spec_command req = Some (n, args) \<Longrightarrow> n \<notin> Str ` set sinkMethods \<Longrightarrow>
   normaliseRequest req c = (Inl sinkError, c\<lparr>logged := logged c @ [req]\<rparr>)"
proof -
  assume a: "spec_command req = Some (n, args)" and b: "n \<notin> Str ` set sinkMethods"
  from b have "not_in_sinkMethods n" by (cases n) auto
  moreover from a have "js_index (normReq_of req) 0 = n"
    by (cases req rule: spec_command.cases) (auto simp: js_index_def)
  ultimately show ?thesis by (simp add: normaliseRequest_def Let_def)
qed

lemma spec_valid_iff:
  "spec_valid req \<longleftrightarrow> (\<exists>m args. spec_command req = Some (Str m, args) \<and> m \<in> set sinkMethods)"
  by (auto simp: spec_valid_def split: option.splits jsval.splits)

lemma not_spec_valid_cases:
  "\<not> spec_valid req \<Longrightarrow>
   spec_command req = None \<or> (\<exists>n args. spec_command req = Some (n, args) \<and> n \<notin> Str ` set sinkMethods)"
  by (auto simp: spec_valid_def split: option.splits jsval.splits)

lemma sink_step_stopped: "stopped s \<Longrightarrow> sink_step s req = s"
  by (simp add: sink_step_def)

lemma driver_stopped: "stopped s \<Longrightarrow> driver s reqs = s"
  unfolding driver_def by (induction reqs) (simp_all add: sink_step_stopped)

lemma driver_append: "driver s (xs @ ys) = driver (driver s xs) ys"
  by (simp add: driver_def)

lemma driver_single: "driver s [req] = sink_step s req"
  by (simp add: driver_def)

lemma driver_Cons: "driver s (req # reqs) = driver (sink_step s req) reqs"
  by (simp add: driver_def)

lemma sink_step_valid:
  assumes "spec_command req = Some (Str m, args)" and "m \<in> set sinkMethods" and "\<not> stopped s"
  shows "sink_step s req =
           s\<lparr>sink_router := apply_method m args (sink_router s),
             sink_console := (sink_console s)\<lparr>logged := logged (sink_console s) @ [req]\<rparr>\<rparr>"
  using assms by (simp add: sink_step_def normaliseRequest_valid)

lemma sink_step_invalid:
  assumes "\<not> spec_valid req" and "\<not> stopped s"
  shows "sink_step s req =
           s\<lparr>sink_console := (sink_console s)\<lparr>logged := logged (sink_console s) @ [req],
                                               errors := errors (sink_console s) @ [sinkError]\<rparr>,
             stopped := True\<rparr>"
  using not_spec_valid_cases [OF assms(1)] assms(2)
  by (auto simp: sink_step_def normaliseRequest_no_command normaliseRequest_unknown_name)

lemma sink_step_spec_valid:
  assumes "spec_valid req" and "\<not> stopped s"
  shows "\<not> stopped (sink_step s req)"
    and "invoked (sink_router (sink_step s req)) = invoked (sink_router s) @ spec_calls req"
    and "errors (sink_console (sink_step s req)) = errors (sink_console s)"
proof -
  from assms(1) obtain m args where c: "spec_command req = Some (Str m, args)" "m \<in> set sinkMethods"
    unfolding spec_valid_iff by blast
  note st = sink_step_valid [OF c assms(2)]
  show "\<not> stopped (sink_step s req)" using assms(2) by (simp add: st)
  show "invoked (sink_router (sink_step s req)) = invoked (sink_router s) @ spec_calls req"
    using c by (simp add: st spec_calls_def apply_method_def)
  show "errors (sink_console (sink_step s req)) = errors (sink_console s)"
    by (simp add: st)
qed

lemma driver_valid_prefix:
  "\<not> stopped s \<Longrightarrow> list_all spec_valid pre \<Longrightarrow>
   \<not> stopped (driver s pre)
   \<and> invoked (sink_router (driver s pre)) = invoked (sink_router s) @ concat (map spec_calls pre)
   \<and> errors (sink_console (driver s pre)) = errors (sink_console s)"
proof (induction pre arbitrary: s)
  case Nil
  then show ?case by (simp add: driver_def)
next
  case (Cons req pre)
  from Cons.prems have v: "spec_valid req" and vs: "list_all spec_valid pre" by simp_all
  note step = sink_step_spec_valid [OF v Cons.prems(1)]
  from Cons.IH [OF step(1) vs] show ?case
    by (simp add: driver_Cons step)
qed

text \<open>
  The subscription of the sink has stopped exactly when some command of the stream so
  far was not valid.
\<close>

lemma driver_stopped_iff:
  "\<not> stopped s \<Longrightarrow> stopped (driver s reqs) \<longleftrightarrow> \<not> list_all spec_valid reqs"
proof (induction reqs arbitrary: s)
  case Nil
  then show ?case by (simp add: driver_def)
next
  case (Cons req reqs)
  show ?case
  proof (cases "spec_valid req")
    case True
    from sink_step_spec_valid(1) [OF True Cons.prems] Cons.IH True show ?thesis
      by (simp add: driver_Cons)
  next
    case False
    have "stopped (sink_step s req)"
      by (simp add: sink_step_invalid [OF False Cons.prems])
    then show ?thesis using False
      by (simp add: driver_Cons driver_stopped)
  qed
qed

text \<open>
  Claim C4, as it is stated, fails: the command \<^verbatim>\<open>['navigate', 'home']\<close> has a name of
  the vocabulary, but it comes after the input \<^verbatim>\<open>0\<close>, whose error has ended the
  subscription, and no router method is invoked for it.
\<close>

theorem valid_command_counterexample:
  "spec_command (Arr [Str ''navigate'', Str ''home'']) = Some (Str ''navigate'', [Str ''home''])
   \<and> ''navigate'' \<in> set sinkMethods
   \<and> invoked (sink_router (sink_step (driver sink0 [Num 0]) (Arr [Str ''navigate'', Str ''home'']))) = []"
  by (simp add: driver_def sink_step_def normaliseRequest_def sink0_def router0_def
      js_index_def sinkMethods_def)

text \<open>
  Claim C4, amended. A command whose name is in the vocabulary, given as a bare string
  or as a non-empty sequence of the name and the arguments, and arriving while the
  subscription of the sink is alive (no earlier command of the stream has failed): the
  router method of that name is invoked once, with the arguments in order (the record
  of invocations grows by this one entry), no error is reported, and the subscription
  stays alive.
\<close>

theorem valid_command_dispatched:
  assumes "spec_command req = Some (Str m, args)" and "m \<in> set sinkMethods" and "\<not> stopped s"
  shows "invoked (sink_router (sink_step s req)) = invoked (sink_router s) @ [(m, args)]
       \<and> errors (sink_console (sink_step s req)) = errors (sink_console s)
       \<and> \<not> stopped (sink_step s req)"
  using assms(3) by (simp add: sink_step_valid [OF assms] apply_method_def)

theorem valid_command_dispatched_witness:
  "spec_command (Arr [Str ''navigate'', Str ''home'']) = Some (Str ''navigate'', [Str ''home''])
   \<and> ''navigate'' \<in> set sinkMethods \<and> \<not> stopped sink0
   \<and> invoked (sink_router (sink_step sink0 (Arr [Str ''navigate'', Str ''home'']))) = [(''navigate'', [Str ''home''])]
   \<and> errors (sink_console (sink_step sink0 (Arr [Str ''navigate'', Str ''home'']))) = []"
proof -
  have h1: "spec_command (Arr [Str ''navigate'', Str ''home'']) = Some (Str ''navigate'', [Str ''home''])"
    by simp
  have h2: "''navigate'' \<in> set sinkMethods" by (simp add: sinkMethods_def)
  have h3: "\<not> stopped sink0" by (simp add: sink0_def)
  show ?thesis
    using h1 h2 h3 valid_command_dispatched [OF h1 h2 h3]
    by (simp add: sink0_def router0_def)
qed

text \<open>
  Claim C5, as it is stated, fails: the input \<^verbatim>\<open>7\<close> is no command, but it comes after
  the unknown command \<^verbatim>\<open>'reload'\<close>, whose error has ended the subscription; no error
  is reported for it, and it is not even logged: the console holds the one error of
  \<^verbatim>\<open>'reload'\<close>.
\<close>

theorem invalid_command_counterexample:
  "spec_command (Num 7) = None
   \<and> errors (sink_console (driver sink0 [Str ''reload''])) = [sinkError]
   \<and> errors (sink_console (sink_step (driver sink0 [Str ''reload'']) (Num 7))) = [sinkError]
   \<and> logged (sink_console (sink_step (driver sink0 [Str ''reload'']) (Num 7))) = [Str ''reload'']"
  by (simp add: driver_def sink_step_def normaliseRequest_def sink0_def router0_def
      js_index_def sinkMethods_def)

text \<open>
  Claim C5, amended. An input that is neither a string nor a non-empty sequence, or
  whose head is not in the vocabulary, arriving while the subscription of the sink is
  alive (no earlier command of the stream has failed): the error is reported on the
  console and the router is left as it was.
\<close>

theorem invalid_command_reported:
  assumes "\<not> stopped s"
    and "spec_command req = None
         \<or> (\<exists>n args. spec_command req = Some (n, args) \<and> n \<notin> Str ` set sinkMethods)"
  shows "errors (sink_console (sink_step s req)) = errors (sink_console s) @ [sinkError]
       \<and> sink_router (sink_step s req) = sink_router s"
  using assms
  by (auto simp: sink_step_def normaliseRequest_no_command normaliseRequest_unknown_name)

theorem invalid_command_reported_witness:
  "\<not> stopped sink0
   \<and> spec_command (Arr [Str ''reload'', Num 1]) = Some (Str ''reload'', [Num 1])
   \<and> Str ''reload'' \<notin> Str ` set sinkMethods
   \<and> errors (sink_console (sink_step sink0 (Arr [Str ''reload'', Num 1]))) = [sinkError]
   \<and> sink_router (sink_step sink0 (Arr [Str ''reload'', Num 1])) = router0"
proof -
  have h1: "\<not> stopped sink0" by (simp add: sink0_def)
  have h2: "spec_command (Arr [Str ''reload'', Num 1]) = Some (Str ''reload'', [Num 1])"
    and h3: "Str ''reload'' \<notin> Str ` set sinkMethods"
    by (auto simp: sinkMethods_def)
  then have h2': "spec_command (Arr [Str ''reload'', Num 1]) = None
         \<or> (\<exists>n args. spec_command (Arr [Str ''reload'', Num 1]) = Some (n, args) \<and> n \<notin> Str ` set sinkMethods)"
    by blast
  from invalid_command_reported [OF h1 h2'] h1 h2 h3 show ?thesis
    by (simp add: sink0_def)
qed

text \<open>
  Claim C2, as it is stated, fails: after the unknown command \<^verbatim>\<open>'bogus'\<close> the valid
  command \<^verbatim>\<open>'start'\<close> of the same stream never reaches the router, and is not even
  logged by \<^verbatim>\<open>normaliseRequest\<close>.
\<close>

theorem bad_command_counterexample:
  "invoked (sink_router (driver sink0 [Str ''bogus'', Str ''start''])) = []
   \<and> logged (sink_console (driver sink0 [Str ''bogus'', Str ''start''])) = [Str ''bogus'']"
  by (simp add: driver_def sink_step_def normaliseRequest_def sink0_def router0_def
      js_index_def sinkMethods_def)

text \<open>
  Claim C2, amended. The first malformed or unknown command of a stream is dropped and
  its error is reported on the console; the commands before it have been dispatched;
  the error ends the subscription, so the rest of the stream changes nothing: the sink
  is as if the stream had ended with the bad command.
\<close>

theorem bad_command_ends_sink:
  assumes "\<not> stopped s" and "list_all spec_valid pre" and "\<not> spec_valid bad"
  shows "driver s (pre @ bad # rest) = driver s (pre @ [bad])
       \<and> stopped (driver s (pre @ [bad]))
       \<and> errors (sink_console (driver s (pre @ [bad]))) = errors (sink_console s) @ [sinkError]
       \<and> invoked (sink_router (driver s (pre @ [bad])))
           = invoked (sink_router s) @ concat (map spec_calls pre)"
proof -
  let ?s1 = "driver s pre"
  from driver_valid_prefix [OF assms(1,2)]
  have live: "\<not> stopped ?s1"
    and inv: "invoked (sink_router ?s1) = invoked (sink_router s) @ concat (map spec_calls pre)"
    and err: "errors (sink_console ?s1) = errors (sink_console s)"
    by simp_all
  note bad = sink_step_invalid [OF assms(3) live]
  have one: "driver s (pre @ [bad]) = sink_step ?s1 bad"
    by (simp add: driver_append driver_single)
  have st: "stopped (driver s (pre @ [bad]))"
    by (simp add: one bad)
  have "driver s (pre @ bad # rest) = driver (driver s (pre @ [bad])) rest"
    by (simp add: driver_def)
  also have "\<dots> = driver s (pre @ [bad])"
    by (rule driver_stopped [OF st])
  finally have all: "driver s (pre @ bad # rest) = driver s (pre @ [bad])" .
  show ?thesis
    using all st by (simp add: one bad inv err)
qed

theorem bad_command_ends_sink_witness:
  "\<not> stopped sink0 \<and> list_all spec_valid [Str ''start''] \<and> \<not> spec_valid (Num 7)
   \<and> driver sink0 ([Str ''start''] @ Num 7 # [Arr [Str ''navigate'', Str ''home'']])
       = driver sink0 ([Str ''start''] @ [Num 7])
   \<and> invoked (sink_router (driver sink0 ([Str ''start''] @ [Num 7]))) = [(''start'', [])]"
proof -
  have h1: "\<not> stopped sink0" by (simp add: sink0_def)
  have h2: "list_all spec_valid [Str ''start'']" by (simp add: spec_valid_def sinkMethods_def)
  have h3: "\<not> spec_valid (Num 7)" by (simp add: spec_valid_def)
  from bad_command_ends_sink [OF h1 h2 h3, of "[Arr [Str ''navigate'', Str ''home'']]"] h1 h2 h3
  show ?thesis
    by (simp add: sink0_def router0_def spec_calls_def sinkMethods_def)
qed

section \<open>The streams, in terms of the router's hook calls\<close>

lemma emits_rx_filter: "emits (rx_filter p src) calls = filter p (emits src calls)"
  by (simp add: rx_filter_def)

lemma emits_rx_map: "emits (rx_map f src) calls = map f (emits src calls)"
  by (simp add: rx_map_def)

lemma emits_rx_startWith: "emits (rx_startWith v src) calls = v # emits src calls"
  by (simp add: rx_startWith_def)

lemma effect_rx_filter: "subscribe_effect (rx_filter p src) = subscribe_effect src"
  by (simp add: rx_filter_def)

lemma effect_rx_map: "subscribe_effect (rx_map f src) = subscribe_effect src"
  by (simp add: rx_map_def)

lemma effect_rx_startWith: "subscribe_effect (rx_startWith v src) = subscribe_effect src"
  by (simp add: rx_startWith_def)

lemmas emits_rx = emits_rx_filter emits_rx_map emits_rx_startWith
lemmas effect_rx = effect_rx_filter effect_rx_map effect_rx_startWith

lemma emits_transition_S: "emits (transition_S a) calls = map cyclePlugin calls"
  by (simp add: transition_S_def)

lemma js_index_drop2: "js_index (drop 2 args) 0 = js_index args 2"
  by (auto simp: js_index_def)

text \<open>What the plugin makes of each hook call.\<close>

lemma type_cyclePlugin:
  "type (cyclePlugin (h, args)) =
     (case h of OnStart \<Rightarrow> ''start'' | OnStop \<Rightarrow> ''stop''
      | OnTransitionSuccess \<Rightarrow> ''transitionSuccess'' | OnTransitionError \<Rightarrow> ''transitionError''
      | OnTransitionStart \<Rightarrow> ''transitionStart'' | OnTransitionCancel \<Rightarrow> ''transitionCancel'')"
  by (cases h) (simp_all add: push_def pushState_def)

lemma type_is_start: "type (cyclePlugin c) = ''start'' \<longleftrightarrow> fst c = OnStart"
  by (cases c) (simp add: type_cyclePlugin split: hook.splits)

lemma type_is_stop: "type (cyclePlugin c) = ''stop'' \<longleftrightarrow> fst c = OnStop"
  by (cases c) (simp add: type_cyclePlugin split: hook.splits)

lemma type_is_transitionStart: "type (cyclePlugin c) = ''transitionStart'' \<longleftrightarrow> fst c = OnTransitionStart"
  by (cases c) (simp add: type_cyclePlugin split: hook.splits)

lemma type_is_transitionCancel: "type (cyclePlugin c) = ''transitionCancel'' \<longleftrightarrow> fst c = OnTransitionCancel"
  by (cases c) (simp add: type_cyclePlugin split: hook.splits)

lemma type_is_transitionSuccess: "type (cyclePlugin c) = ''transitionSuccess'' \<longleftrightarrow> fst c = OnTransitionSuccess"
  by (cases c) (simp add: type_cyclePlugin split: hook.splits)

lemma type_is_transitionError: "type (cyclePlugin c) = ''transitionError'' \<longleftrightarrow> fst c = OnTransitionError"
  by (cases c) (simp add: type_cyclePlugin split: hook.splits)

lemmas type_is = type_is_start type_is_stop type_is_transitionStart type_is_transitionCancel
  type_is_transitionSuccess type_is_transitionError

lemma states_cyclePlugin:
  "fst c \<noteq> OnStart \<Longrightarrow> fst c \<noteq> OnStop \<Longrightarrow>
   toState (cyclePlugin c) = js_index (snd c) 0 \<and> fromState (cyclePlugin c) = js_index (snd c) 1"
  by (cases c; cases "fst c") (simp_all add: pushState_def)

lemma error_cyclePlugin:
  "fst c = OnTransitionError \<Longrightarrow> error (cyclePlugin c) = js_index (snd c) 2"
  by (cases c) (simp add: pushState_def js_index_drop2)

lemma emits_slice:
  "emits (slice a ty) calls = map (\<lambda>c. ty) (filter (\<lambda>c. type (cyclePlugin c) = ty) calls)"
  by (induction calls) (simp_all add: slice_def filter_S_def emits_rx emits_transition_S)

lemma emits_sliceSlate:
  "emits (sliceSlate a ty) calls =
     map (\<lambda>c. \<lparr>toState = toState (cyclePlugin c), fromState = fromState (cyclePlugin c)\<rparr>)
       (filter (\<lambda>c. type (cyclePlugin c) = ty) calls)"
  by (induction calls) (simp_all add: sliceSlate_def filter_S_def emits_rx emits_transition_S)

lemma map_filter_cong:
  "(\<And>x. P x = Q x) \<Longrightarrow> (\<And>x. Q x \<Longrightarrow> f x = g x) \<Longrightarrow> map f (filter P xs) = map g (filter Q xs)"
  by (induction xs) auto

lemma emits_slate_of:
  assumes "\<And>c. type (cyclePlugin c) = ty \<longleftrightarrow> fst c = h" and "h \<noteq> OnStart" and "h \<noteq> OnStop"
  shows "emits (sliceSlate a ty) calls =
           map (\<lambda>c. \<lparr>toState = js_index (snd c) 0, fromState = js_index (snd c) 1\<rparr>)
             (filter (\<lambda>c. fst c = h) calls)"
  unfolding emits_sliceSlate
  by (rule map_filter_cong) (use assms in \<open>simp_all add: states_cyclePlugin\<close>)

lemma emits_transitionSuccess_S:
  "emits (transitionSuccess_S a) calls =
     map (\<lambda>c. \<lparr>toState = js_index (snd c) 0, fromState = js_index (snd c) 1\<rparr>)
       (filter (\<lambda>c. fst c = OnTransitionSuccess) calls)"
  unfolding transitionSuccess_S_def by (rule emits_slate_of) (simp_all add: type_is)

section \<open>The six filtered streams\<close>

text \<open>
  Claim C8, as it is stated, fails for the \<^verbatim>\<open>transitionError$\<close> stream: two error
  events that differ in their error payload give the same value, an object of
  \<^verbatim>\<open>toState\<close> and \<^verbatim>\<open>fromState\<close>, so the stream does not carry the payload.
\<close>

theorem filtered_streams_counterexample:
  "emits (transitionError_S True) [(OnTransitionError, [home, Null, Str ''boom''])]
     = [\<lparr>toState = home, fromState = Null\<rparr>]
   \<and> emits (transitionError_S True) [(OnTransitionError, [home, Null, Str ''bang''])]
     = [\<lparr>toState = home, fromState = Null\<rparr>]"
  by (simp add: transitionError_S_def emits_sliceSlate pushState_def js_index_def)

text \<open>
  Claim C8, amended. Each of the six filtered streams passes the events of its own hook
  and no others; \<^verbatim>\<open>start$\<close> and \<^verbatim>\<open>stop$\<close> emit the bare type tag; the four
  transition streams, \<^verbatim>\<open>transitionError$\<close> among them, emit the object of the first two
  arguments of the hook call, \<^verbatim>\<open>toState\<close> and \<^verbatim>\<open>fromState\<close>, and nothing of the
  error payload.
\<close>

theorem filtered_streams:
  "emits (start_S a) calls = map (\<lambda>c. ''start'') (filter (\<lambda>c. fst c = OnStart) calls)
   \<and> emits (stop_S a) calls = map (\<lambda>c. ''stop'') (filter (\<lambda>c. fst c = OnStop) calls)
   \<and> emits (transitionStart_S a) calls =
       map (\<lambda>c. \<lparr>toState = js_index (snd c) 0, fromState = js_index (snd c) 1\<rparr>)
         (filter (\<lambda>c. fst c = OnTransitionStart) calls)
   \<and> emits (transitionCancel_S a) calls =
       map (\<lambda>c. \<lparr>toState = js_index (snd c) 0, fromState = js_index (snd c) 1\<rparr>)
         (filter (\<lambda>c. fst c = OnTransitionCancel) calls)
   \<and> emits (transitionSuccess_S a) calls =
       map (\<lambda>c. \<lparr>toState = js_index (snd c) 0, fromState = js_index (snd c) 1\<rparr>)
         (filter (\<lambda>c. fst c = OnTransitionSuccess) calls)
   \<and> emits (transitionError_S a) calls =
       map (\<lambda>c. \<lparr>toState = js_index (snd c) 0, fromState = js_index (snd c) 1\<rparr>)
         (filter (\<lambda>c. fst c = OnTransitionError) calls)"
proof -
  have 1: "emits (start_S a) calls = map (\<lambda>c. ''start'') (filter (\<lambda>c. fst c = OnStart) calls)"
    unfolding start_S_def emits_slice by (rule map_filter_cong) (simp_all add: type_is)
  have 2: "emits (stop_S a) calls = map (\<lambda>c. ''stop'') (filter (\<lambda>c. fst c = OnStop) calls)"
    unfolding stop_S_def emits_slice by (rule map_filter_cong) (simp_all add: type_is)
  have 3: "emits (transitionStart_S a) calls =
       map (\<lambda>c. \<lparr>toState = js_index (snd c) 0, fromState = js_index (snd c) 1\<rparr>)
         (filter (\<lambda>c. fst c = OnTransitionStart) calls)"
    unfolding transitionStart_S_def by (rule emits_slate_of) (simp_all add: type_is)
  have 4: "emits (transitionCancel_S a) calls =
       map (\<lambda>c. \<lparr>toState = js_index (snd c) 0, fromState = js_index (snd c) 1\<rparr>)
         (filter (\<lambda>c. fst c = OnTransitionCancel) calls)"
    unfolding transitionCancel_S_def by (rule emits_slate_of) (simp_all add: type_is)
  have 6: "emits (transitionError_S a) calls =
       map (\<lambda>c. \<lparr>toState = js_index (snd c) 0, fromState = js_index (snd c) 1\<rparr>)
         (filter (\<lambda>c. fst c = OnTransitionError) calls)"
    unfolding transitionError_S_def by (rule emits_slate_of) (simp_all add: type_is)
  from 1 2 3 4 emits_transitionSuccess_S [of a calls] 6 show ?thesis by blast
qed

section \<open>The streams that start with a value\<close>

lemma emits_error_S:
  "emits (error_S a) calls =
     Null # map (\<lambda>c. if fst c = OnTransitionError then js_index (snd c) 2 else Null) calls"
  by (simp add: error_S_def emits_rx emits_transition_S type_is error_cyclePlugin)

lemma emits_transitionRoute_S:
  "emits (transitionRoute_S a) calls =
     Null # map (\<lambda>c. if fst c = OnTransitionStart then js_index (snd c) 0 else Null) calls"
  by (simp add: transitionRoute_S_def emits_rx emits_transition_S type_is states_cyclePlugin)

text \<open>
  Claim C1, as it is stated, fails: after a \<^verbatim>\<open>TransitionError\<close> with the payload
  \<^verbatim>\<open>'boom'\<close>, a \<^verbatim>\<open>TransitionSuccess\<close> makes \<^verbatim>\<open>error$\<close> emit \<^verbatim>\<open>null\<close>.
\<close>

theorem error_stream_counterexample:
  "emits (error_S True) [(OnTransitionError, [home, Null, Str ''boom'']), (OnTransitionSuccess, [home, Null])]
     = [Null, Str ''boom'', Null]"
  by (simp add: emits_error_S js_index_def)

text \<open>
  Claim C1, amended. \<^verbatim>\<open>error$\<close> emits \<^verbatim>\<open>null\<close> first, to every subscriber, whenever
  it joins; then it emits one value for every lifecycle event, in order: the payload for
  a \<^verbatim>\<open>TransitionError\<close>, \<^verbatim>\<open>null\<close> for any other event.
\<close>

theorem error_stream:
  "emits (error_S a) [] = [Null]
   \<and> emits (error_S a) (calls @ [(h, args)])
       = emits (error_S a) calls @ [if h = OnTransitionError then js_index args 2 else Null]
   \<and> hd (received_from k (error_S a) calls) = Null"
  by (simp add: emits_error_S received_from_def)

text \<open>
  Claim C7, as it is stated, fails: the \<^verbatim>\<open>TransitionSuccess\<close> after a
  \<^verbatim>\<open>TransitionStart\<close> makes \<^verbatim>\<open>transitionRoute$\<close> emit \<^verbatim>\<open>null\<close>, and a subscriber
  that joins after the \<^verbatim>\<open>TransitionStart\<close> receives \<^verbatim>\<open>null\<close>, not its \<^verbatim>\<open>toState\<close>.
\<close>

theorem transitionRoute_counterexample:
  "emits (transitionRoute_S True) [(OnTransitionStart, [home, Null]), (OnTransitionSuccess, [home, Null])]
     = [Null, home, Null]
   \<and> received_from 1 (transitionRoute_S True) [(OnTransitionStart, [home, Null])] = [Null]"
  by (simp add: emits_transitionRoute_S received_from_def js_index_def)

text \<open>
  Claim C7, amended. \<^verbatim>\<open>transitionRoute$\<close> emits \<^verbatim>\<open>null\<close> first, to every subscriber,
  whenever it joins; then it emits one value for every lifecycle event, in order:
  \<^verbatim>\<open>toState\<close> for a \<^verbatim>\<open>TransitionStart\<close>, \<^verbatim>\<open>null\<close> for any other event.
\<close>

theorem transitionRoute_stream:
  "emits (transitionRoute_S a) [] = [Null]
   \<and> emits (transitionRoute_S a) (calls @ [(h, args)])
       = emits (transitionRoute_S a) calls @ [if h = OnTransitionStart then js_index args 0 else Null]
   \<and> hd (received_from k (transitionRoute_S a) calls) = Null"
  by (simp add: emits_transitionRoute_S received_from_def)

section \<open>The route streams\<close>

lemma emits_routeState_S:
  "emits (routeState_S tp a) calls =
     map (\<lambda>c. \<lparr>intersection = tp (js_index (snd c) 0) (js_index (snd c) 1), route = js_index (snd c) 0\<rparr>)
       (filter (\<lambda>c. fst c = OnTransitionSuccess \<and> js_index (snd c) 0 \<noteq> Null) calls)"
  unfolding routeState_S_def emits_rx emits_transitionSuccess_S
  by (induction calls) simp_all

lemma emits_routeState_S_snoc:
  "emits (routeState_S tp a) (calls @ [(h, args)]) =
     emits (routeState_S tp a) calls
       @ (if h = OnTransitionSuccess \<and> js_index args 0 \<noteq> Null
          then [\<lparr>intersection = tp (js_index args 0) (js_index args 1), route = js_index args 0\<rparr>]
          else [])"
  by (simp add: emits_routeState_S)

lemma route_nonnull:
  "filter (\<lambda>rt. rt \<noteq> Null) (map route (filter P (emits (routeState_S tp a) calls)))
     = map route (filter P (emits (routeState_S tp a) calls))"
  unfolding emits_routeState_S by (induction calls) simp_all

text \<open>
  Claim C6, as it is stated, fails: the driver was made when the router had no state;
  a subscriber that joins when the router is at \<^verbatim>\<open>home\<close> first receives \<^verbatim>\<open>null\<close>.
\<close>

theorem route_stream_counterexample:
  "hd (snd (subscribe (route_S (tp_const None) router0 True) router1 [])) = Null
   \<and> getState router1 = Obj [(''name'', Str ''home'')]"
  by (simp add: subscribe_def route_S_def emits_rx getState_def router0_def router1_def home_def)

text \<open>
  Claim C6, amended. Whatever the router is when a subscriber joins \<^verbatim>\<open>route$\<close>, the
  first value it receives is the state that the router had when \<^verbatim>\<open>makeRouterDriver\<close>
  was called; every later value is the \<^verbatim>\<open>toState\<close> of a \<^verbatim>\<open>TransitionSuccess\<close> that
  follows, when it is not \<^verbatim>\<open>null\<close>, in the order of arrival.
\<close>

theorem route_stream:
  "hd (snd (subscribe (route_S tp r0 a) r calls)) = getState r0
   \<and> emits (route_S tp r0 a) [] = [getState r0]
   \<and> emits (route_S tp r0 a) (calls @ [(h, args)])
       = emits (route_S tp r0 a) calls
           @ (if h = OnTransitionSuccess \<and> js_index args 0 \<noteq> Null then [js_index args 0] else [])"
  by (simp add: subscribe_def route_S_def emits_rx emits_routeState_S)

text \<open>
  Claim C3, as it is stated, fails: the intersection \<^verbatim>\<open>'a'\<close> is an ancestor of the node
  \<^verbatim>\<open>'a.b'\<close>, and \<^verbatim>\<open>routeNode$('a.b')\<close> emits nothing; the intersection is \<^verbatim>\<open>null\<close>,
  and \<^verbatim>\<open>routeNode$('home')\<close> emits nothing.
\<close>

theorem routeNode_counterexample:
  "emits (routeNode_S (tp_const (Some ''a'')) True router0 (Some ''a.b''))
     [(OnTransitionSuccess, [Obj [(''name'', Str ''a.c'')], Obj [(''name'', Str ''a.b'')]])] = []
   \<and> emits (routeNode_S (tp_const None) True router0 (Some ''home''))
     [(OnTransitionSuccess, [home, Null])] = []"
  by (simp add: routeNode_S_def emits_rx emits_routeState_S tp_const_def getState_def router0_def
      js_index_def home_def)

text \<open>
  Claim C3, amended. \<^verbatim>\<open>routeNode$(node)\<close> first emits the state that the router had
  when \<^verbatim>\<open>routeNode$(node)\<close> was called, unless it is \<^verbatim>\<open>null\<close>; after that it emits
  for a \<^verbatim>\<open>TransitionSuccess\<close> with a \<^verbatim>\<open>toState\<close> other than \<^verbatim>\<open>null\<close> exactly when
  the intersection computed for it is equal to \<open>node\<close>. An intersection that is an
  ancestor of the node, or \<^verbatim>\<open>null\<close> for a node name, is not equal to it.
\<close>

theorem routeNode_stream:
  "emits (routeNode_S tp a r node) [] = (if getState r \<noteq> Null then [getState r] else [])
   \<and> emits (routeNode_S tp a r node) (calls @ [(h, args)])
       = emits (routeNode_S tp a r node) calls
           @ (if h = OnTransitionSuccess \<and> js_index args 0 \<noteq> Null
                 \<and> tp (js_index args 0) (js_index args 1) = node
              then [js_index args 0] else [])"
  by (simp add: routeNode_S_def emits_rx emits_routeState_S)

section \<open>What a subscription does to the router\<close>

lemma transition_S_effect:
  "subscribe_effect (transition_S a) r =
     (if \<not> started r \<and> a
      then r\<lparr>started := True, plugins := plugins r @ [''CYCLE_DRIVER''],
             invoked := invoked r @ [(''start'', [])]\<rparr>
      else r\<lparr>plugins := plugins r @ [''CYCLE_DRIVER'']\<rparr>)"
  by (simp add: transition_S_def usePlugin_def apply_method_def Let_def)

text \<open>
  Claim C9. A subscription to \<^verbatim>\<open>transition$\<close> registers one plugin, and invokes
  \<^verbatim>\<open>router.start()\<close> when the router is not started and \<^verbatim>\<open>autostart\<close> is true, and in no
  other case; \<^verbatim>\<open>autostart\<close> is true when the argument is left out.
\<close>

theorem subscription_registers_and_starts:
  "plugins (subscribe_effect (transition_S a) r) = plugins r @ [''CYCLE_DRIVER'']
   \<and> invoked (subscribe_effect (transition_S a) r)
       = invoked r @ (if \<not> started r \<and> a then [(''start'', [])] else [])
   \<and> invoked (subscribe_effect (transition_S (autostart_arg None)) r)
       = invoked r @ (if \<not> started r then [(''start'', [])] else [])"
  by (simp add: transition_S_effect autostart_arg_def)

lemma derived_effects:
  "subscribe_effect (start_S a) = subscribe_effect (transition_S a)"
  "subscribe_effect (stop_S a) = subscribe_effect (transition_S a)"
  "subscribe_effect (transitionStart_S a) = subscribe_effect (transition_S a)"
  "subscribe_effect (transitionCancel_S a) = subscribe_effect (transition_S a)"
  "subscribe_effect (transitionSuccess_S a) = subscribe_effect (transition_S a)"
  "subscribe_effect (transitionError_S a) = subscribe_effect (transition_S a)"
  "subscribe_effect (route_S tp r0 a) = subscribe_effect (transition_S a)"
  "subscribe_effect (routeNode_S tp a r1 node) = subscribe_effect (transition_S a)"
  "subscribe_effect (transitionRoute_S a) = subscribe_effect (transition_S a)"
  "subscribe_effect (error_S a) = subscribe_effect (transition_S a)"
  by (simp_all add: start_S_def stop_S_def transitionStart_S_def transitionCancel_S_def
      transitionSuccess_S_def transitionError_S_def route_S_def routeNode_S_def
      transitionRoute_S_def error_S_def routeState_S_def slice_def sliceSlate_def filter_S_def
      effect_rx)

text \<open>
  Claim C10. Every stream derived from \<^verbatim>\<open>transition$\<close> does to the router, for each
  subscription, what a subscription to \<^verbatim>\<open>transition$\<close> does: two subscriptions register
  two plugins, both named \<^verbatim>\<open>CYCLE_DRIVER\<close>, and when the router has been stopped in
  between, \<^verbatim>\<open>router.start()\<close> is invoked again.
\<close>

theorem derived_streams_rerun_registration:
  "subscribe_effect (start_S a) = subscribe_effect (transition_S a)
   \<and> subscribe_effect (stop_S a) = subscribe_effect (transition_S a)
   \<and> subscribe_effect (transitionStart_S a) = subscribe_effect (transition_S a)
   \<and> subscribe_effect (transitionCancel_S a) = subscribe_effect (transition_S a)
   \<and> subscribe_effect (transitionSuccess_S a) = subscribe_effect (transition_S a)
   \<and> subscribe_effect (transitionError_S a) = subscribe_effect (transition_S a)
   \<and> subscribe_effect (route_S tp r0 a) = subscribe_effect (transition_S a)
   \<and> subscribe_effect (routeNode_S tp a r1 node) = subscribe_effect (transition_S a)
   \<and> subscribe_effect (transitionRoute_S a) = subscribe_effect (transition_S a)
   \<and> subscribe_effect (error_S a) = subscribe_effect (transition_S a)
   \<and> plugins (subscribe_effect (error_S a) (subscribe_effect (route_S tp r0 a) r))
       = plugins r @ [''CYCLE_DRIVER'', ''CYCLE_DRIVER'']
   \<and> invoked (subscribe_effect (error_S True)
        (apply_method ''stop'' [] (subscribe_effect (route_S tp r0 True) router0)))
       = [(''start'', []), (''stop'', []), (''start'', [])]"
proof -
  have two: "plugins (subscribe_effect (error_S a) (subscribe_effect (route_S tp r0 a) r))
       = plugins r @ [''CYCLE_DRIVER'', ''CYCLE_DRIVER'']"
    by (simp add: derived_effects transition_S_effect)
  have again: "invoked (subscribe_effect (error_S True)
        (apply_method ''stop'' [] (subscribe_effect (route_S tp r0 True) router0)))
       = [(''start'', []), (''stop'', []), (''start'', [])]"
    by (simp add: derived_effects transition_S_effect apply_method_def router0_def)
  from two again show ?thesis
    by (simp only: derived_effects simp_thms)
qed

end
